theory Spec2Isabelle
  imports Complex_Main
begin

section \<open>Python strings\<close>

text \<open>
  A Python \<open>str\<close> is modelled as a \<^typ>\<open>string\<close>, one \<^typ>\<open>char\<close> per code point, for
  text whose code points are below 256. The character classes are the ones Python 3 uses
  for \<open>str\<close>: \<open>str.isspace\<close> and the regular expression class \<open>\s\<close> agree, and \<open>\w\<close> is
  \<open>str.isalnum\<close> plus the underscore.
\<close>

definition code_point :: "char \<Rightarrow> nat" where
  "code_point c = of_char c"

definition isspace :: "char \<Rightarrow> bool" where
  "isspace c =
     (let n = code_point c
      in (9 \<le> n \<and> n \<le> 13) \<or> (28 \<le> n \<and> n \<le> 32) \<or> n = 133 \<or> n = 160)"

definition isalnum :: "char \<Rightarrow> bool" where
  "isalnum c =
     (let n = code_point c
      in (48 \<le> n \<and> n \<le> 57) \<or> (65 \<le> n \<and> n \<le> 90) \<or> (97 \<le> n \<and> n \<le> 122)
         \<or> n = 170 \<or> n = 178 \<or> n = 179 \<or> n = 181 \<or> n = 185 \<or> n = 186
         \<or> (188 \<le> n \<and> n \<le> 190) \<or> (192 \<le> n \<and> n \<le> 214)
         \<or> (216 \<le> n \<and> n \<le> 246) \<or> (248 \<le> n \<and> n \<le> 255))"

definition isword :: "char \<Rightarrow> bool" where
  "isword c = (isalnum c \<or> c = CHR ''_'')"

definition SP :: char where "SP = CHR '' ''"
definition LF :: char where "LF = CHR 0x0A"
definition CR :: char where "CR = CHR 0x0D"

text \<open>\<open>s.strip()\<close>: leading and trailing whitespace removed.\<close>

definition strip :: "string \<Rightarrow> string" where
  "strip s = rev (dropWhile isspace (rev (dropWhile isspace s)))"

text \<open>
  \<open>s[a:b]\<close> for integer bounds: a negative bound counts from the end, and both bounds are
  clamped to the string.
\<close>

definition slice_bound :: "nat \<Rightarrow> int \<Rightarrow> nat" where
  "slice_bound n i = (if i < 0 then nat (max (i + int n) 0) else min (nat i) n)"

definition py_slice :: "'a list \<Rightarrow> int \<Rightarrow> int \<Rightarrow> 'a list" where
  "py_slice s a b =
     (let lo = slice_bound (length s) a; hi = slice_bound (length s) b
      in take (hi - lo) (drop lo s))"

text \<open>\<open>s.rfind(p)\<close>: the highest index at which \<open>p\<close> occurs in \<open>s\<close>, or \<open>-1\<close>.\<close>

definition occurs_at :: "string \<Rightarrow> string \<Rightarrow> nat \<Rightarrow> bool" where
  "occurs_at s p i = (i + length p \<le> length s \<and> take (length p) (drop i s) = p)"

definition rfind :: "string \<Rightarrow> string \<Rightarrow> int" where
  "rfind s p =
     (case filter (occurs_at s p) (rev [0..<Suc (length s)]) of
        [] \<Rightarrow> - 1
      | i # _ \<Rightarrow> int i)"

section \<open>Text processor\<close>

subsection \<open>\<open>preprocess_text\<close>\<close>

text \<open>\<open>re.sub(r'\s+', ' ', text)\<close>: every maximal run of whitespace becomes one space.\<close>

function collapse_ws :: "string \<Rightarrow> string" where
  "collapse_ws [] = []"
| "collapse_ws (c # cs) =
     (if isspace c then SP # collapse_ws (dropWhile isspace cs) else c # collapse_ws cs)"
  by pat_completeness auto
termination
  by (relation "measure length") (auto simp: le_imp_less_Suc length_dropWhile_le)

text \<open>
  \<open>re.sub(r'[^\w\s.,!?;:\'"()-]', '', text)\<close>: a character is kept when it is a word
  character, whitespace or one of the eleven listed punctuation marks.
\<close>

definition kept_char :: "char \<Rightarrow> bool" where
  "kept_char c = (isword c \<or> isspace c \<or> c \<in> set ''.,!?;:'\"()-'')"

definition remove_special :: "string \<Rightarrow> string" where
  "remove_special s = filter kept_char s"

text \<open>\<open>text.replace('\r\n', '\n')\<close> and \<open>text.replace('\r', '\n')\<close>.\<close>

fun replace_crlf :: "string \<Rightarrow> string" where
  "replace_crlf [] = []"
| "replace_crlf [c] = [c]"
| "replace_crlf (c # d # cs) =
     (if c = CR \<and> d = LF then LF # replace_crlf cs else c # replace_crlf (d # cs))"

definition replace_cr :: "string \<Rightarrow> string" where
  "replace_cr s = map (\<lambda>c. if c = CR then LF else c) s"

definition preprocess_text :: "string \<Rightarrow> string" where
  "preprocess_text text =
     strip (replace_cr (replace_crlf (remove_special (collapse_ws text))))"

subsection \<open>\<open>chunk_text\<close>\<close>

text \<open>
  The search for a sentence boundary: for each pattern in turn, the position just past its
  last occurrence in the search text replaces the best break found so far when it lies
  further right.
\<close>

definition break_patterns :: "string list" where
  "break_patterns = [''. '', ''! '', ''? '', [LF]]"

definition break_step :: "string \<Rightarrow> int \<Rightarrow> int option \<Rightarrow> string \<Rightarrow> int option" where
  "break_step search_text search_start best_break pattern =
     (let pos = rfind search_text pattern
      in if pos \<noteq> - 1
         then (let actual_pos = search_start + pos + int (length pattern)
               in case best_break of
                    None \<Rightarrow> Some actual_pos
                  | Some b \<Rightarrow> if actual_pos > b then Some actual_pos else Some b)
         else best_break)"

definition find_break :: "string \<Rightarrow> int \<Rightarrow> int \<Rightarrow> int option" where
  "find_break text start chunk_size =
     (let search_start = max (start + chunk_size - 100) start;
          search_end = min (start + chunk_size + 100) (int (length text));
          search_text = py_slice text search_start search_end
      in foldl (break_step search_text search_start) None break_patterns)"

text \<open>The end of the window that starts at \<open>start\<close>.\<close>

definition window_end :: "string \<Rightarrow> int \<Rightarrow> int \<Rightarrow> int" where
  "window_end text start chunk_size =
     (let end = start + chunk_size
      in if end < int (length text)
         then (case find_break text start chunk_size of
                 None \<Rightarrow> end
               | Some best_break \<Rightarrow> if best_break \<noteq> 0 \<and> best_break > start then best_break else end)
         else end)"

definition append_chunk :: "string list \<Rightarrow> string \<Rightarrow> string list" where
  "append_chunk chunks chunk = (if chunk \<noteq> [] then chunks @ [chunk] else chunks)"

text \<open>
  The \<open>while\<close> loop. Nothing in the loop forces \<open>start\<close> to grow, so the loop is a partial
  function: \<open>None\<close> stands for a run that never leaves the loop.
\<close>

partial_function (option) chunk_loop ::
  "string \<Rightarrow> int \<Rightarrow> int \<Rightarrow> int \<Rightarrow> string list \<Rightarrow> string list option" where
  "chunk_loop text chunk_size chunk_overlap start chunks =
     (if start < int (length text)
      then (if window_end text start chunk_size - chunk_overlap \<ge> int (length text)
            then Some (append_chunk chunks
                         (strip (py_slice text start (window_end text start chunk_size))))
            else chunk_loop text chunk_size chunk_overlap
                   (window_end text start chunk_size - chunk_overlap)
                   (append_chunk chunks
                      (strip (py_slice text start (window_end text start chunk_size)))))
      else Some chunks)"

declare chunk_loop.simps [code]

definition chunk_text :: "string \<Rightarrow> int \<Rightarrow> int \<Rightarrow> string list option" where
  "chunk_text text chunk_size chunk_overlap =
     (if text = [] then Some []
      else chunk_loop (preprocess_text text) chunk_size chunk_overlap 0 [])"

text \<open>\<open>str(i)\<close> for a non-negative integer, and \<open>sep.join(parts)\<close>.\<close>

fun str_nat :: "nat \<Rightarrow> string" where
  "str_nat n =
     (if n < 10 then [char_of (48 + n)] else str_nat (n div 10) @ [char_of (48 + n mod 10)])"

fun join :: "string \<Rightarrow> string list \<Rightarrow> string" where
  "join sep [] = []"
| "join sep [x] = x"
| "join sep (x # y # ys) = x @ sep @ join sep (y # ys)"

subsection \<open>\<open>create_chunks_with_metadata\<close>\<close>

record chunk_metadata =
  source :: string
  chunk_index :: nat
  total_chunks :: nat

record chunk =
  doc_text :: string
  doc_metadata :: chunk_metadata

definition create_chunks_with_metadata ::
  "string \<Rightarrow> string \<Rightarrow> int \<Rightarrow> int \<Rightarrow> chunk list option" where
  "create_chunks_with_metadata text src chunk_size chunk_overlap =
     (case chunk_text text chunk_size chunk_overlap of
        None \<Rightarrow> None
      | Some chunks \<Rightarrow>
          Some (map (\<lambda>(i, c). \<lparr>doc_text = c,
                               doc_metadata = \<lparr>source = src, chunk_index = i,
                                               total_chunks = length chunks\<rparr>\<rparr>)
                    (enumerate 0 chunks)))"

section \<open>Vector store\<close>

text \<open>
  Exceptions are values. \<open>ModelError\<close> is whatever the embedding model raises,
  \<open>ValueError\<close> is what the ChromaDB client raises, \<open>IndexError\<close> is Python's, and the
  other four are what \<open>chat\<close> and \<open>chat_stream\<close> of the Ollama client can end with.
\<close>

datatype error =
  ModelError | ValueError | IndexError
| ConnectionError | JSONDecodeError | UnicodeDecodeError | AttributeError

type_synonym embedding = "real list"

record entry =
  entry_id :: string
  entry_embedding :: embedding
  entry_document :: string
  entry_metadata :: chunk_metadata

text \<open>
  The ChromaDB client is a library outside the repository. Its state is the list of its
  collections, each a name with its entries, in creation order. The client behaves as
  follows.
  \<^item> \<open>get_or_create_collection\<close> checks the name first and raises \<open>ValueError\<close> for a name
    it does not accept. Which names it accepts is a parameter, \<open>name_ok\<close>.
  \<^item> \<open>count\<close> is the number of entries.
  \<^item> \<open>delete\<close> raises \<open>ValueError\<close> when it is given no ids and an empty \<open>where\<close> filter,
    which is how \<open>add_documents\<close> calls it: the client refuses to delete without a
    condition, and the collection keeps its entries.
  \<^item> \<open>add\<close> appends the rows it is given and raises when the columns differ in length.
  \<^item> \<open>delete_collection\<close> raises when there is no collection of that name.
\<close>

type_synonym collections = "(string \<times> entry list) list"

definition client_get_or_create_collection ::
  "(string \<Rightarrow> bool) \<Rightarrow> collections \<Rightarrow> string \<Rightarrow> error + collections" where
  "client_get_or_create_collection name_ok cols name =
     (if \<not> name_ok name then Inl ValueError
      else if name \<in> set (map fst cols) then Inr cols
      else Inr (cols @ [(name, [])]))"

definition collection_entries :: "collections \<Rightarrow> string \<Rightarrow> entry list" where
  "collection_entries cols name = (case map_of cols name of None \<Rightarrow> [] | Some es \<Rightarrow> es)"

definition collection_count :: "collections \<Rightarrow> string \<Rightarrow> nat" where
  "collection_count cols name = length (collection_entries cols name)"

definition collection_put :: "collections \<Rightarrow> string \<Rightarrow> entry list \<Rightarrow> collections" where
  "collection_put cols name es = map (\<lambda>(n, old). if n = name then (n, es) else (n, old)) cols"

text \<open>\<open>collection.delete(where={})\<close>.\<close>

definition collection_delete_where_empty :: "collections \<Rightarrow> string \<Rightarrow> error + collections" where
  "collection_delete_where_empty cols name = Inl ValueError"

definition collection_add ::
  "collections \<Rightarrow> string \<Rightarrow> string list \<Rightarrow> embedding list \<Rightarrow> string list \<Rightarrow>
   chunk_metadata list \<Rightarrow> error + collections" where
  "collection_add cols name ids embeddings documents metadatas =
     (if length embeddings = length ids \<and> length documents = length ids
         \<and> length metadatas = length ids
      then Inr (collection_put cols name
                  (collection_entries cols name @
                   map (\<lambda>(i, e, d, m). \<lparr>entry_id = i, entry_embedding = e,
                                        entry_document = d, entry_metadata = m\<rparr>)
                       (zip ids (zip embeddings (zip documents metadatas)))))
      else Inl ValueError)"

definition client_list_collections :: "collections \<Rightarrow> string list" where
  "client_list_collections cols = map fst cols"

definition client_delete_collection :: "collections \<Rightarrow> string \<Rightarrow> error + collections" where
  "client_delete_collection cols name =
     (if name \<in> set (map fst cols) then Inr (filter (\<lambda>(n, es). n \<noteq> name) cols)
      else Inl ValueError)"

text \<open>
  The result of \<open>collection.query\<close>: three parallel columns, each a list with one row of
  values per query embedding.
\<close>

record query_result =
  res_documents :: "string list list"
  res_metadatas :: "chunk_metadata list list"
  res_distances :: "real list list"

text \<open>
  What the store is given from outside: the names the ChromaDB client accepts, the
  embedding generator and the nearest-neighbour query of the collection. The last three
  may raise.
\<close>

record providers =
  name_ok :: "string \<Rightarrow> bool"
  embed_text :: "string \<Rightarrow> error + embedding"
  embed_texts :: "string list \<Rightarrow> error + embedding list"
  collection_query :: "entry list \<Rightarrow> embedding \<Rightarrow> int \<Rightarrow> error + query_result"

record vector_store =
  collections :: collections
  store_current_book :: "string option"

definition safe_name :: "string \<Rightarrow> string" where
  "safe_name book_name = take 50 (map (\<lambda>c. if isalnum c then c else CHR ''_'') book_name)"

text \<open>
  \<open>get_or_create_collection\<close> sets \<open>_current_book\<close> before it calls the client, so the
  assignment stays when the client raises. The collection handle \<open>_collection\<close> is
  the collection of that name in the client's state.
\<close>

definition get_or_create_collection ::
  "providers \<Rightarrow> vector_store \<Rightarrow> string \<Rightarrow> error option \<times> vector_store" where
  "get_or_create_collection env vs book_name =
     (let safe = safe_name book_name;
          vs0 = vs\<lparr>store_current_book := Some safe\<rparr>
      in case client_get_or_create_collection (name_ok env) (collections vs) safe of
           Inl e \<Rightarrow> (Some e, vs0)
         | Inr cols \<Rightarrow> (None, vs0\<lparr>collections := cols\<rparr>))"

subsection \<open>\<open>add_documents\<close>\<close>

text \<open>
  The loop \<open>for i in range(0, len(chunks), batch_size)\<close>. A batch that raises ends the loop;
  the batches added before it stay in the collection.
\<close>

function add_batches ::
  "collections \<Rightarrow> string \<Rightarrow> string list \<Rightarrow> embedding list \<Rightarrow> string list \<Rightarrow>
   chunk_metadata list \<Rightarrow> nat \<Rightarrow> nat \<Rightarrow> error option \<times> collections" where
  "add_batches cols name ids embeddings texts metadatas n i =
     (if i < n
      then (case collection_add cols name
                   (take (min (i + 100) n - i) (drop i ids))
                   (take (min (i + 100) n - i) (drop i embeddings))
                   (take (min (i + 100) n - i) (drop i texts))
                   (take (min (i + 100) n - i) (drop i metadatas)) of
              Inl e \<Rightarrow> (Some e, cols)
            | Inr cols' \<Rightarrow> add_batches cols' name ids embeddings texts metadatas n (i + 100))
      else (None, cols))"
  by pat_completeness auto
termination
  by (relation "measure (\<lambda>(cols, name, ids, embeddings, texts, metadatas, n, i). n - i)") auto

definition add_documents ::
  "providers \<Rightarrow> vector_store \<Rightarrow> chunk list \<Rightarrow> string \<Rightarrow> (error + nat) \<times> vector_store" where
  "add_documents env vs chunks book_name =
     (case get_or_create_collection env vs book_name of
        (Some e, vs1) \<Rightarrow> (Inl e, vs1)
      | (None, vs1) \<Rightarrow>
          (let name = safe_name book_name;
               existing = collection_count (collections vs1) name
           in case (if existing > 0 then collection_delete_where_empty (collections vs1) name
                    else Inr (collections vs1)) of
                Inl e \<Rightarrow> (Inl e, vs1)
              | Inr cols2 \<Rightarrow>
                  (let texts = map doc_text chunks
                   in case embed_texts env texts of
                        Inl e \<Rightarrow> (Inl e, vs1\<lparr>collections := cols2\<rparr>)
                      | Inr embeddings \<Rightarrow>
                          (let ids = map (\<lambda>i. book_name @ ''_'' @ str_nat i)
                                         [0..<length chunks];
                               metadatas = map doc_metadata chunks
                           in case add_batches cols2 name ids embeddings texts metadatas
                                     (length chunks) 0 of
                                (Some e, cols) \<Rightarrow> (Inl e, vs1\<lparr>collections := cols\<rparr>)
                              | (None, cols) \<Rightarrow>
                                  (Inr (length chunks), vs1\<lparr>collections := cols\<rparr>)))))"

subsection \<open>\<open>similarity_search\<close>\<close>

record hit =
  hit_text :: string
  hit_metadata :: "chunk_metadata option"
  hit_distance :: real

definition index_row :: "'a list list \<Rightarrow> nat \<Rightarrow> error + 'a" where
  "index_row col i =
     (case col of
        [] \<Rightarrow> Inl IndexError
      | row # _ \<Rightarrow> if i < length row then Inr (row ! i) else Inl IndexError)"

text \<open>
  The formatting loop over \<open>enumerate(results['documents'][0])\<close>. An empty metadata column
  gives the empty dictionary (\<open>None\<close> here), an empty distance column gives 0.
\<close>

fun format_rows :: "query_result \<Rightarrow> nat \<Rightarrow> string list \<Rightarrow> error + hit list" where
  "format_rows results i [] = Inr []"
| "format_rows results i (doc # docs) =
     (case (if res_metadatas results \<noteq> [] then map_sum id Some (index_row (res_metadatas results) i)
            else Inr None) of
        Inl e \<Rightarrow> Inl e
      | Inr m \<Rightarrow>
          (case (if res_distances results \<noteq> [] then index_row (res_distances results) i else Inr 0) of
             Inl e \<Rightarrow> Inl e
           | Inr d \<Rightarrow>
               (case format_rows results (Suc i) docs of
                  Inl e \<Rightarrow> Inl e
                | Inr hits \<Rightarrow> Inr (\<lparr>hit_text = doc, hit_metadata = m, hit_distance = d\<rparr> # hits))))"

definition format_results :: "query_result \<Rightarrow> error + hit list" where
  "format_results results =
     (if res_documents results \<noteq> [] \<and> hd (res_documents results) \<noteq> []
      then format_rows results 0 (hd (res_documents results))
      else Inr [])"

definition similarity_search ::
  "providers \<Rightarrow> vector_store \<Rightarrow> string \<Rightarrow> string \<Rightarrow> int \<Rightarrow> (error + hit list) \<times> vector_store" where
  "similarity_search env vs query book_name n_results =
     (case get_or_create_collection env vs book_name of
        (Some e, vs1) \<Rightarrow> (Inl e, vs1)
      | (None, vs1) \<Rightarrow>
          (let name = safe_name book_name
           in if collection_count (collections vs1) name = 0 then (Inr [], vs1)
              else (case embed_text env query of
                      Inl e \<Rightarrow> (Inl e, vs1)
                    | Inr query_embedding \<Rightarrow>
                        (case collection_query env (collection_entries (collections vs1) name)
                                query_embedding
                                (min n_results
                                   (int (collection_count (collections vs1) name))) of
                           Inl e \<Rightarrow> (Inl e, vs1)
                         | Inr results \<Rightarrow> (format_results results, vs1)))))"

subsection \<open>\<open>list_books\<close> and \<open>delete_book\<close>\<close>

definition list_books :: "vector_store \<Rightarrow> string list" where
  "list_books vs = client_list_collections (collections vs)"

definition delete_book :: "vector_store \<Rightarrow> string \<Rightarrow> bool \<times> vector_store" where
  "delete_book vs book_name =
     (case client_delete_collection (collections vs) (safe_name book_name) of
        Inr cols \<Rightarrow> (True, vs\<lparr>collections := cols\<rparr>)
      | Inl e \<Rightarrow> (False, vs))"

section \<open>Ollama client\<close>

record message =
  role :: string
  content :: string

text \<open>
  The HTTP exchange with the Ollama server is outside the repository. For \<open>chat\<close> there
  are three outcomes.
  \<^item> \<open>RequestFailed\<close>: the \<open>requests\<close> library raises one of its exceptions (no
    connection, a timeout, an error status from \<open>raise_for_status\<close>, a body that
    \<open>response.json()\<close> cannot parse). \<open>chat\<close> turns it into \<open>ConnectionError\<close>.
  \<^item> \<open>ReplyNotObject\<close>: the body is JSON but not an object, or its \<open>message\<close> is not an
    object, so that \<open>.get\<close> raises \<open>AttributeError\<close>, which \<open>chat\<close> does not catch.
  \<^item> \<open>Reply c\<close>: the body is an object and \<open>c\<close> is the text of \<open>message.content\<close>, the
    empty string when \<open>message\<close> or \<open>content\<close> is missing.
\<close>

datatype chat_response = RequestFailed | ReplyNotObject | Reply string

definition chat :: "chat_response \<Rightarrow> error + string" where
  "chat response =
     (case response of
        RequestFailed \<Rightarrow> Inl ConnectionError
      | ReplyNotObject \<Rightarrow> Inl AttributeError
      | Reply c \<Rightarrow> Inr c)"

text \<open>
  For \<open>chat_stream\<close> the exchange either fails before the first line (\<open>StreamFailed\<close>: no
  connection, a timeout, an error status), or delivers lines and then ends, normally or
  with an exception of the \<open>requests\<close> library raised by \<open>iter_lines\<close>. A line is one of
  the following.
  \<^item> \<open>Blank\<close>: an empty line, which the loop skips.
  \<^item> \<open>Undecodable\<close>: bytes that are not text, for which \<open>json.loads\<close> raises
    \<open>UnicodeDecodeError\<close>.
  \<^item> \<open>NotJson\<close>: text that is not JSON, for which \<open>json.loads\<close> raises \<open>JSONDecodeError\<close>.
  \<^item> \<open>NotObject\<close>: JSON that is not an object, or whose \<open>message\<close> is not an object, for
    which \<open>.get\<close> raises \<open>AttributeError\<close>.
  \<^item> \<open>Json c\<close>: an object, with \<open>c\<close> the text of \<open>message.content\<close>, the empty string
    when \<open>message\<close> or \<open>content\<close> is missing or empty.

  Of these exceptions \<open>chat_stream\<close> catches only those of the \<open>requests\<close> library, which
  it raises again as \<open>ConnectionError\<close>. The other three leave it as they are.
\<close>

datatype line = Blank | Undecodable | NotJson | NotObject | Json string

datatype stream_end = Completed | Interrupted

datatype stream_response = StreamFailed | Streaming "line list" stream_end

text \<open>
  A generator, run to its end, is the list of the fragments it yields together with the
  exception that ended it, if any.
\<close>

type_synonym generator = "string list \<times> error option"

fun relay_lines :: "line list \<Rightarrow> stream_end \<Rightarrow> generator" where
  "relay_lines [] Completed = ([], None)"
| "relay_lines [] Interrupted = ([], Some ConnectionError)"
| "relay_lines (Blank # ls) e = relay_lines ls e"
| "relay_lines (Undecodable # ls) e = ([], Some UnicodeDecodeError)"
| "relay_lines (NotJson # ls) e = ([], Some JSONDecodeError)"
| "relay_lines (NotObject # ls) e = ([], Some AttributeError)"
| "relay_lines (Json c # ls) e =
     (if c \<noteq> [] then (c # fst (relay_lines ls e), snd (relay_lines ls e))
      else relay_lines ls e)"

definition chat_stream :: "stream_response \<Rightarrow> generator" where
  "chat_stream response =
     (case response of
        StreamFailed \<Rightarrow> ([], Some ConnectionError)
      | Streaming ls e \<Rightarrow> relay_lines ls e)"

record ollama_client =
  chat_api :: "string \<Rightarrow> message list \<Rightarrow> chat_response"
  stream_api :: "string \<Rightarrow> message list \<Rightarrow> stream_response"

section \<open>RAG engine\<close>

definition SYSTEM_PROMPT_before :: string where
  "SYSTEM_PROMPT_before = join [LF]
     [''You are a helpful book discussion assistant. Your role is to help users understand and discuss the book they are reading.'',
      '''',
      ''IMPORTANT RULES:'',
      ''1. ONLY use information from the provided context passages below. Do not use your general knowledge about the book.'',
      ''2. If the context doesn't contain enough information to answer the question, say so clearly.'',
      ''3. NEVER reveal plot points, character fates, or events that are NOT in the provided context. This prevents spoilers.'',
      ''4. When discussing characters, only mention what is known from the provided passages.'',
      ''5. Be engaging and help the reader explore themes, characters, and ideas from the text.'',
      ''6. If asked about something not in the context, politely explain that you can only discuss what's in the current reading.'',
      '''',
      ''CONTEXT FROM THE BOOK:'',
      '''']"

definition SYSTEM_PROMPT_after :: string where
  "SYSTEM_PROMPT_after = join [LF]
     ['''',
      '''',
      ''Remember: Stay grounded in the provided context. Do not spoil anything beyond what's shown above.'']"

text \<open>\<open>SYSTEM_PROMPT.format(context=context)\<close>.\<close>

definition system_prompt :: "string \<Rightarrow> string" where
  "system_prompt context = SYSTEM_PROMPT_before @ context @ SYSTEM_PROMPT_after"

text \<open>
  The engine holds the vector store and the current book. The field \<open>calls\<close> is not in
  the source: it records, in order, every call the engine makes to the vector store's
  search and to the Ollama client, so that a statement can say which calls were made.
\<close>

datatype call =
  SimilaritySearch string string int
| Chat string "message list"
| ChatStream string "message list"

record rag_engine =
  vector_store :: vector_store
  current_book :: "string option"
  calls :: "call list"

definition set_book :: "rag_engine \<Rightarrow> string \<Rightarrow> rag_engine" where
  "set_book e book_name = e\<lparr>current_book := Some book_name\<rparr>"

text \<open>\<open>not self.current_book\<close>: the book is \<open>None\<close> or the empty string.\<close>

definition no_book :: "string option \<Rightarrow> bool" where
  "no_book b = (case b of None \<Rightarrow> True | Some name \<Rightarrow> name = [])"

definition passage :: "nat \<times> hit \<Rightarrow> string" where
  "passage p = ''[Passage '' @ str_nat (fst p) @ '']'' @ [LF] @ hit_text (snd p)"

definition build_context ::
  "providers \<Rightarrow> rag_engine \<Rightarrow> string \<Rightarrow> int \<Rightarrow> (error + string) \<times> rag_engine" where
  "build_context env e query n_chunks =
     (case current_book e of
        None \<Rightarrow> (Inr [], e)
      | Some book \<Rightarrow>
          if book = [] then (Inr [], e)
          else (case similarity_search env (vector_store e) query book n_chunks of
                  (r, vs) \<Rightarrow>
                    (case r of
                       Inl err \<Rightarrow> Inl err
                     | Inr chunks \<Rightarrow>
                         if chunks = [] then Inr ''No relevant passages found in the book.''
                         else Inr (join [LF, LF] (map passage (enumerate 1 chunks))),
                     e\<lparr>vector_store := vs,
                       calls := calls e @ [SimilaritySearch query book n_chunks]\<rparr>)))"

definition build_messages :: "string \<Rightarrow> message list \<Rightarrow> string \<Rightarrow> message list" where
  "build_messages query chat_history context =
     (let system_message = system_prompt context;
          messages = [\<lparr>role = ''system'', content = system_message\<rparr>];
          history_limit = 20;
          recent_history = (if chat_history \<noteq> []
                            then drop (length chat_history - history_limit) chat_history
                            else [])
      in messages @ recent_history @ [\<lparr>role = ''user'', content = query\<rparr>])"

definition GUIDANCE :: string where
  "GUIDANCE = ''Please upload a book first before asking questions.''"

text \<open>\<open>chat_history or []\<close>, for a history that defaults to \<open>None\<close>.\<close>

definition history_or_empty :: "message list option \<Rightarrow> message list" where
  "history_or_empty chat_history = (case chat_history of None \<Rightarrow> [] | Some h \<Rightarrow> h)"

definition query ::
  "providers \<Rightarrow> ollama_client \<Rightarrow> rag_engine \<Rightarrow> string \<Rightarrow> string \<Rightarrow> message list option \<Rightarrow> int \<Rightarrow>
   (error + string) \<times> rag_engine" where
  "query env client e question model chat_history n_chunks =
     (if no_book (current_book e) then (Inr GUIDANCE, e)
      else (case build_context env e question n_chunks of
              (Inl err, e1) \<Rightarrow> (Inl err, e1)
            | (Inr context, e1) \<Rightarrow>
                (let messages = build_messages question (history_or_empty chat_history) context
                 in (chat (chat_api client model messages),
                     e1\<lparr>calls := calls e1 @ [Chat model messages]\<rparr>))))"

definition query_stream ::
  "providers \<Rightarrow> ollama_client \<Rightarrow> rag_engine \<Rightarrow> string \<Rightarrow> string \<Rightarrow> message list option \<Rightarrow> int \<Rightarrow>
   generator \<times> rag_engine" where
  "query_stream env client e question model chat_history n_chunks =
     (if no_book (current_book e) then (([GUIDANCE], None), e)
      else (case build_context env e question n_chunks of
              (Inl err, e1) \<Rightarrow> (([], Some err), e1)
            | (Inr context, e1) \<Rightarrow>
                (let messages = build_messages question (history_or_empty chat_history) context
                 in (chat_stream (stream_api client model messages),
                     e1\<lparr>calls := calls e1 @ [ChatStream model messages]\<rparr>))))"

section \<open>Notions used in the statements\<close>

text \<open>
  Re-concatenation with the overlap regions removed: the first piece whole, then every
  later piece without its first \<open>overlap\<close> characters.
\<close>

definition reassemble :: "nat \<Rightarrow> string list \<Rightarrow> string" where
  "reassemble overlap pieces =
     (case pieces of [] \<Rightarrow> [] | p # ps \<Rightarrow> p @ concat (map (drop overlap) ps))"

text \<open>What \<open>chunk_text\<close> makes of raw windows: each one trimmed, the empty ones left out.\<close>

definition trimmed :: "string list \<Rightarrow> string list" where
  "trimmed windows = filter (\<lambda>c. c \<noteq> []) (map strip windows)"

text \<open>
  Text with single spaces only: its only whitespace character is the space, and no two
  spaces are adjacent.
\<close>

fun collapsed :: "string \<Rightarrow> bool" where
  "collapsed [] = True"
| "collapsed [c] = (isspace c = (c = SP))"
| "collapsed (c # d # cs) =
     ((isspace c = (c = SP)) \<and> (c \<noteq> SP \<or> d \<noteq> SP) \<and> collapsed (d # cs))"

text \<open>
  A split of a text into windows, given by the positions where the windows end. The first
  window starts at \<open>start\<close>; every later window starts \<open>overlap\<close> characters before the
  end of the window before it. The ends advance when every window ends beyond the
  overlap region it begins with, and they reach the end when the last one is at or beyond
  the end of the text.
\<close>

fun windows_from :: "string \<Rightarrow> nat \<Rightarrow> nat \<Rightarrow> nat list \<Rightarrow> string list" where
  "windows_from tx overlap start [] = []"
| "windows_from tx overlap start (e # es) =
     take (e - start) (drop start tx) # windows_from tx overlap (e - overlap) es"

fun advancing :: "nat \<Rightarrow> nat \<Rightarrow> nat list \<Rightarrow> bool" where
  "advancing overlap start [] = True"
| "advancing overlap start (e # es) = (start + overlap < e \<and> advancing overlap (e - overlap) es)"

definition reaches_end :: "string \<Rightarrow> nat list \<Rightarrow> bool" where
  "reaches_end tx ends = (if ends = [] then tx = [] else length tx \<le> last ends)"

text \<open>
  A line of a stream that the loop of \<open>chat_stream\<close> gets past, the exception a line
  raises otherwise, and the fragments that lines yield: the non-empty contents.
\<close>

fun readable :: "line \<Rightarrow> bool" where
  "readable Blank = True"
| "readable (Json c) = True"
| "readable l = False"

fun line_error :: "line \<Rightarrow> error" where
  "line_error Undecodable = UnicodeDecodeError"
| "line_error NotJson = JSONDecodeError"
| "line_error l = AttributeError"

fun line_contents :: "line list \<Rightarrow> string list" where
  "line_contents [] = []"
| "line_contents (Json c # ls) = (if c \<noteq> [] then c # line_contents ls else line_contents ls)"
| "line_contents (l # ls) = line_contents ls"

subsection \<open>Example data\<close>

text \<open>
  The names current releases of ChromaDB accept: 3 to 512 characters out of the letters
  \<open>a\<close> to \<open>z\<close> and \<open>A\<close> to \<open>Z\<close>, the digits, the dot, the underscore and the hyphen; a letter
  or digit first and last; no two dots in a row. The client also refuses a name that is
  an IPv4 address. Such a name has dots, and \<open>safe_name\<close> produces none, so that rule
  is left out.
\<close>

definition ascii_alnum :: "char \<Rightarrow> bool" where
  "ascii_alnum c =
     (let n = code_point c
      in (48 \<le> n \<and> n \<le> 57) \<or> (65 \<le> n \<and> n \<le> 90) \<or> (97 \<le> n \<and> n \<le> 122))"

fun no_double_dot :: "string \<Rightarrow> bool" where
  "no_double_dot (c # d # cs) = ((c \<noteq> CHR ''.'' \<or> d \<noteq> CHR ''.'') \<and> no_double_dot (d # cs))"
| "no_double_dot cs = True"

definition chroma_name_ok :: "string \<Rightarrow> bool" where
  "chroma_name_ok name =
     (3 \<le> length name \<and> length name \<le> 512
      \<and> list_all (\<lambda>c. ascii_alnum c \<or> c = CHR ''.'' \<or> c = CHR ''_'' \<or> c = CHR ''-'') name
      \<and> ascii_alnum (hd name) \<and> ascii_alnum (last name)
      \<and> no_double_dot name)"

definition alice_metadata :: chunk_metadata where
  "alice_metadata = \<lparr>source = ''book'', chunk_index = 0, total_chunks = 1\<rparr>"

definition alice_entry :: entry where
  "alice_entry = \<lparr>entry_id = ''book_0'', entry_embedding = [1, 0],
                   entry_document = ''Alice met Bob.'', entry_metadata = alice_metadata\<rparr>"

definition market_chunk :: chunk where
  "market_chunk = \<lparr>doc_text = ''The market was closed.'', doc_metadata = alice_metadata\<rparr>"

definition empty_store :: vector_store where
  "empty_store = \<lparr>collections = [], store_current_book = None\<rparr>"

definition indexed_store :: vector_store where
  "indexed_store = \<lparr>collections = [(''book'', [alice_entry]), (''other'', [alice_entry])],
                     store_current_book = Some ''book''\<rparr>"

text \<open>An embedding generator that raises, and one that gives every text the same vector.\<close>

definition embedder_down :: providers where
  "embedder_down = \<lparr>name_ok = chroma_name_ok,
                     embed_text = (\<lambda>t. Inl ModelError), embed_texts = (\<lambda>ts. Inl ModelError),
                     collection_query = (\<lambda>es v n. Inl ValueError)\<rparr>"

definition embedder_up :: providers where
  "embedder_up = \<lparr>name_ok = chroma_name_ok,
                   embed_text = (\<lambda>t. Inr [1, 0]), embed_texts = (\<lambda>ts. Inr (map (\<lambda>t. [1, 0]) ts)),
                   collection_query = (\<lambda>es v n. Inl ValueError)\<rparr>"

definition ollama_down :: ollama_client where
  "ollama_down = \<lparr>chat_api = (\<lambda>m ms. RequestFailed), stream_api = (\<lambda>m ms. StreamFailed)\<rparr>"

definition ollama_cut :: ollama_client where
  "ollama_cut = \<lparr>chat_api = (\<lambda>m ms. RequestFailed),
                  stream_api = (\<lambda>m ms. Streaming [Json ''The '', Blank, Json ''cat ''] Interrupted)\<rparr>"

definition ollama_garbled :: ollama_client where
  "ollama_garbled = \<lparr>chat_api = (\<lambda>m ms. ReplyNotObject),
                      stream_api = (\<lambda>m ms. Streaming [Json ''The '', NotObject, Json ''cat '']
                                               Completed)\<rparr>"

definition ollama_up :: ollama_client where
  "ollama_up = \<lparr>chat_api = (\<lambda>m ms. Reply ''The cat sat.''),
                 stream_api = (\<lambda>m ms. Streaming [Json ''The '', Json ''cat '', Json ''sat.'']
                                          Completed)\<rparr>"

definition engine_without_book :: rag_engine where
  "engine_without_book = \<lparr>vector_store = indexed_store, current_book = None, calls = []\<rparr>"

definition engine_with_book :: rag_engine where
  "engine_with_book = \<lparr>vector_store = empty_store, current_book = Some ''book'', calls = []\<rparr>"

text \<open>Three sentences of a story, twice: 126 characters.\<close>

definition story :: string where
  "story = concat (replicate 2 ''Alice met Bob. They went to the market. The market was closed. '')"

section \<open>The ChromaDB client\<close>

lemma entries_get_or_create:
  assumes "client_get_or_create_collection ok cols name = Inr cols'"
  shows "collection_entries cols' k = collection_entries cols k"
  using assms
  by (auto simp: collection_entries_def client_get_or_create_collection_def map_add_def
              map_of_eq_None_iff [symmetric] simp del: set_map split: option.splits if_splits)

lemma names_get_or_create:
  assumes "client_get_or_create_collection ok cols name = Inr cols'"
  shows "set (map fst cols') = insert name (set (map fst cols))"
  using assms by (auto simp: client_get_or_create_collection_def split: if_splits)

lemma get_or_create_accepted:
  assumes "ok name"
  shows "\<exists>cols'. client_get_or_create_collection ok cols name = Inr cols'"
  using assms by (simp add: client_get_or_create_collection_def)

lemma get_or_create_failed:
  assumes "get_or_create_collection env vs book_name = (Some e, vs1)"
  shows "collections vs1 = collections vs"
  using assms by (auto simp: get_or_create_collection_def Let_def split: sum.splits)

lemma get_or_create_done:
  assumes "get_or_create_collection env vs book_name = (None, vs1)"
  shows "collection_entries (collections vs1) k = collection_entries (collections vs) k"
    and "set (list_books vs1) = insert (safe_name book_name) (set (list_books vs))"
  using assms entries_get_or_create names_get_or_create
  by (auto simp: get_or_create_collection_def Let_def list_books_def client_list_collections_def
        simp del: set_map split: sum.splits)

lemma get_or_create_succeeds:
  assumes "name_ok env (safe_name book_name)"
  shows "fst (get_or_create_collection env vs book_name) = None"
  using assms
  by (simp add: get_or_create_collection_def Let_def client_get_or_create_collection_def)

lemma get_or_create_error:
  assumes "get_or_create_collection env vs book_name = (Some e, vs1)"
  shows "e = ValueError"
  using assms
  by (auto simp: get_or_create_collection_def Let_def client_get_or_create_collection_def
        split: sum.splits if_splits)

lemma safe_name_book: "safe_name ''book'' = ''book''"
  by (simp add: safe_name_def isalnum_def code_point_def)


lemma name_ok_book: "chroma_name_ok ''book''"
  by code_simp


section \<open>Indexing\<close>

text \<open>
  C1. For a book whose collection holds entries, \<open>add_documents\<close> leaves those entries as
  they are: the client refuses the \<open>delete\<close> with the empty filter, so the call ends with
  \<open>ValueError\<close> before any embedding is asked for and before anything is added. And in
  every store, when the embedding generator raises, \<open>add_documents\<close> ends with an error
  and the entries of the book's collection are the ones it had.
\<close>

theorem add_documents_keeps_index:
  "(collection_entries (collections vs) (safe_name book_name) \<noteq> [] \<longrightarrow>
      fst (add_documents env vs chunks book_name) = Inl ValueError
    \<and> collection_entries (collections (snd (add_documents env vs chunks book_name)))
         (safe_name book_name)
       = collection_entries (collections vs) (safe_name book_name))
   \<and> (embed_texts env (map doc_text chunks) = Inl err \<longrightarrow>
      (\<exists>e. fst (add_documents env vs chunks book_name) = Inl e)
    \<and> collection_entries (collections (snd (add_documents env vs chunks book_name)))
         (safe_name book_name)
       = collection_entries (collections vs) (safe_name book_name))"
proof (cases "get_or_create_collection env vs book_name")
  case (Pair r vs1)
  show ?thesis
  proof (cases r)
    case (Some e)
    with Pair get_or_create_failed [of env vs book_name e vs1]
      get_or_create_error [of env vs book_name e vs1]
    show ?thesis
      by (simp add: add_documents_def collection_entries_def)
  next
    case None
    with Pair get_or_create_done(1) [of env vs book_name vs1 "safe_name book_name"]
    show ?thesis
      by (auto simp: add_documents_def Let_def collection_count_def
            collection_delete_where_empty_def)
  qed
qed

text \<open>
  The theorem at a store that holds one entry for \<open>book\<close>, with an embedding generator
  that works, and at an empty store with an embedding generator that raises.
\<close>

theorem add_documents_keeps_index_witness:
  "collection_entries (collections indexed_store) (safe_name ''book'') = [alice_entry]
   \<and> fst (add_documents embedder_up indexed_store [market_chunk] ''book'') = Inl ValueError
   \<and> collection_entries
        (collections (snd (add_documents embedder_up indexed_store [market_chunk] ''book'')))
        (safe_name ''book'') = [alice_entry]
   \<and> embed_texts embedder_down (map doc_text [market_chunk]) = Inl ModelError
   \<and> (\<exists>e. fst (add_documents embedder_down empty_store [market_chunk] ''book'') = Inl e)
   \<and> collection_entries
        (collections (snd (add_documents embedder_down empty_store [market_chunk] ''book'')))
        (safe_name ''book'') = []"
proof -
  have i: "collection_entries (collections indexed_store) (safe_name ''book'') = [alice_entry]"
    by (simp add: indexed_store_def collection_entries_def safe_name_book)
  have n: "collection_entries (collections empty_store) (safe_name ''book'') = []"
    by (simp add: empty_store_def collection_entries_def)
  have h: "embed_texts embedder_down (map doc_text [market_chunk]) = Inl ModelError"
    by (simp add: embedder_down_def)
  from i
    add_documents_keeps_index [of indexed_store "''book''" embedder_up "[market_chunk]",
      THEN conjunct1]
  have 1: "fst (add_documents embedder_up indexed_store [market_chunk] ''book'') = Inl ValueError
      \<and> collection_entries
          (collections (snd (add_documents embedder_up indexed_store [market_chunk] ''book'')))
          (safe_name ''book'') = [alice_entry]"
    by simp
  from h n
    add_documents_keeps_index [of empty_store "''book''" embedder_down "[market_chunk]" ModelError,
      THEN conjunct2]
  have 2: "(\<exists>e. fst (add_documents embedder_down empty_store [market_chunk] ''book'') = Inl e)
      \<and> collection_entries
          (collections (snd (add_documents embedder_down empty_store [market_chunk] ''book'')))
          (safe_name ''book'') = []"
    by simp
  from i h 1 2 show ?thesis by blast
qed

section \<open>Search\<close>

text \<open>
  Where the client accepts the sanitized name, a search in an empty or missing collection
  returns the empty list.
\<close>

lemma similarity_search_empty_accepted:
  assumes "name_ok env (safe_name book_name)"
    and "collection_entries (collections vs) (safe_name book_name) = []"
  shows "fst (similarity_search env vs q book_name n_results) = Inr []"
proof -
  from get_or_create_succeeds [OF assms(1), of vs]
  obtain vs1 where g: "get_or_create_collection env vs book_name = (None, vs1)"
    by (cases "get_or_create_collection env vs book_name") auto
  with assms(2) get_or_create_done(1) [OF g, of "safe_name book_name"] show ?thesis
    by (simp add: similarity_search_def collection_count_def)
qed

text \<open>
  C5 at the input \<open>similarity_search("Who is Alice?", "Alice (1865)")\<close> on a store with
  no collection: the sanitized name ends with an underscore, the client refuses it, and
  the search ends with \<open>ValueError\<close> instead of returning the empty list.
\<close>

theorem similarity_search_raises_on_refused_name:
  "safe_name ''Alice (1865)'' = ''Alice__1865_''
   \<and> similarity_search embedder_up empty_store ''Who is Alice?'' ''Alice (1865)'' 5
       = (Inl ValueError, \<lparr>collections = [], store_current_book = Some ''Alice__1865_''\<rparr>)"
proof -
  have s: "safe_name ''Alice (1865)'' = ''Alice__1865_''"
    by (simp add: safe_name_def isalnum_def code_point_def)
  have n: "\<not> chroma_name_ok ''Alice__1865_''"
    by code_simp
  from s n show ?thesis
    by (simp add: similarity_search_def get_or_create_collection_def Let_def
          client_get_or_create_collection_def embedder_up_def empty_store_def)
qed




section \<open>Deleting a book\<close>

text \<open>
  C4, as the code has it. \<open>delete_book\<close> returns \<open>True\<close> exactly when the store holds a
  collection of the book's sanitized name. Afterwards the store holds no collection of
  that name, and when the flag is \<open>False\<close> the store is as it was.
\<close>

theorem delete_book_flag:
  "fst (delete_book vs book_name) = (safe_name book_name \<in> set (list_books vs))
   \<and> safe_name book_name \<notin> set (list_books (snd (delete_book vs book_name)))
   \<and> (fst (delete_book vs book_name) \<or> snd (delete_book vs book_name) = vs)"
  by (auto simp: delete_book_def client_delete_collection_def list_books_def
        client_list_collections_def)

text \<open>
  C4, as the claim states it, fails: for a book with no collection the client raises and
  \<open>delete_book\<close> returns \<open>False\<close>.
\<close>

theorem delete_book_missing_counterexample:
  "delete_book empty_store ''My Book!'' = (False, empty_store)"
  by (simp add: delete_book_def client_delete_collection_def empty_store_def)

section \<open>Queries\<close>

text \<open>
  C7. The messages sent to the backend are the system message built from the context,
  then the last \<open>min (length chat_history) 20\<close> messages of the history in their order,
  then the question as a user message. The messages of the history before those are
  dropped.
\<close>

theorem build_messages_shape:
  "\<exists>dropped kept.
      chat_history = dropped @ kept \<and> length kept = min (length chat_history) 20 \<and>
      build_messages question chat_history context =
        \<lparr>role = ''system'', content = system_prompt context\<rparr> # kept @
        [\<lparr>role = ''user'', content = question\<rparr>]"
proof (intro exI conjI)
  show "chat_history = take (length chat_history - 20) chat_history
          @ drop (length chat_history - 20) chat_history"
    by simp
  show "length (drop (length chat_history - 20) chat_history) = min (length chat_history) 20"
    by simp
  show "build_messages question chat_history context =
        \<lparr>role = ''system'', content = system_prompt context\<rparr> #
        drop (length chat_history - 20) chat_history @
        [\<lparr>role = ''user'', content = question\<rparr>]"
    by (simp add: build_messages_def)
qed

text \<open>
  C6. With no current book, \<open>query\<close> returns the fixed message and \<open>query_stream\<close> yields
  that message and nothing else. The engine comes back as it was: its record of calls has
  no search and no chat added, and its vector store is untouched.
\<close>

theorem query_without_book:
  assumes "no_book (current_book e)"
  shows "query env client e question model chat_history n_chunks
           = (Inr ''Please upload a book first before asking questions.'', e)
       \<and> query_stream env client e question model chat_history n_chunks
           = (([''Please upload a book first before asking questions.''], None), e)"
  using assms by (simp add: query_def query_stream_def GUIDANCE_def)

text \<open>The theorem at an engine with no book and a backend that would answer.\<close>

theorem query_without_book_witness:
  "no_book (current_book engine_without_book)
   \<and> query embedder_down ollama_up engine_without_book ''Who is Alice?'' ''llama3'' None 5
       = (Inr ''Please upload a book first before asking questions.'', engine_without_book)
   \<and> query_stream embedder_down ollama_up engine_without_book ''Who is Alice?'' ''llama3'' None 5
       = (([''Please upload a book first before asking questions.''], None), engine_without_book)"
proof -
  have h: "no_book (current_book engine_without_book)"
    by (simp add: no_book_def engine_without_book_def)
  from h query_without_book [OF h] show ?thesis by simp
qed

subsection \<open>A backend that fails\<close>

lemma relay_lines_readable:
  assumes "list_all readable ls"
  shows "relay_lines ls en
           = (line_contents ls, case en of Completed \<Rightarrow> None | Interrupted \<Rightarrow> Some ConnectionError)"
  using assms
proof (induction ls)
  case Nil
  show ?case by (cases en) simp_all
next
  case (Cons l ls)
  then show ?case by (cases l) simp_all
qed

lemma relay_lines_unreadable:
  assumes "list_all readable good" and "\<not> readable bad"
  shows "relay_lines (good @ bad # rest) en = (line_contents good, Some (line_error bad))"
  using assms(1)
proof (induction good)
  case Nil
  with assms(2) show ?case by (cases bad) simp_all
next
  case (Cons l ls)
  then show ?case by (cases l) simp_all
qed

lemma context_with_book:
  "fst (build_context embedder_down engine_with_book ''Who is Alice?'' 5)
     = Inr ''No relevant passages found in the book.''"
  using name_ok_book
  by (simp add: build_context_def engine_with_book_def empty_store_def similarity_search_def
        get_or_create_collection_def client_get_or_create_collection_def collection_count_def
        collection_entries_def embedder_down_def safe_name_book Let_def)

text \<open>
  C3, as the code has it. With a book set and the context built, \<open>query_stream\<close> hands a
  failure of the backend on to its caller as an exception, after the fragments received
  before it, in order and with nothing added.
  \<^item> When the backend cannot be reached, it yields nothing and ends with
    \<open>ConnectionError\<close>.
  \<^item> When the stream breaks after lines that could all be read, it yields the non-empty
    contents of exactly those lines and ends with \<open>ConnectionError\<close>.
  \<^item> When a line cannot be read, it yields the non-empty contents of the lines before
    that line and ends with the exception that line raises.
\<close>

theorem query_stream_relays_then_raises:
  assumes "\<not> no_book (current_book e)"
    and "fst (build_context env e question n_chunks) = Inr context"
  shows "(stream_api client model (build_messages question (history_or_empty chat_history) context)
            = StreamFailed \<longrightarrow>
          fst (query_stream env client e question model chat_history n_chunks)
            = ([], Some ConnectionError))
       \<and> (list_all readable ls
          \<and> stream_api client model (build_messages question (history_or_empty chat_history) context)
            = Streaming ls Interrupted \<longrightarrow>
          fst (query_stream env client e question model chat_history n_chunks)
            = (line_contents ls, Some ConnectionError))
       \<and> (list_all readable good \<and> \<not> readable bad
          \<and> stream_api client model (build_messages question (history_or_empty chat_history) context)
            = Streaming (good @ bad # rest) en \<longrightarrow>
          fst (query_stream env client e question model chat_history n_chunks)
            = (line_contents good, Some (line_error bad)))"
proof -
  obtain e1 where b: "build_context env e question n_chunks = (Inr context, e1)"
    using assms(2) by (cases "build_context env e question n_chunks") auto
  have q: "fst (query_stream env client e question model chat_history n_chunks)
        = chat_stream (stream_api client model
            (build_messages question (history_or_empty chat_history) context))"
    using assms(1) b by (simp add: query_stream_def Let_def)
  show ?thesis
    by (simp add: q chat_stream_def relay_lines_readable relay_lines_unreadable)
qed

text \<open>
  The theorem at a backend that cannot be reached, at one whose stream breaks after two
  fragments, and at one that sends a line that is not a JSON object.
\<close>

theorem query_stream_relays_then_raises_witness:
  "\<not> no_book (current_book engine_with_book)
   \<and> fst (build_context embedder_down engine_with_book ''Who is Alice?'' 5)
       = Inr ''No relevant passages found in the book.''
   \<and> fst (query_stream embedder_down ollama_down engine_with_book ''Who is Alice?'' ''llama3'' None 5)
       = ([], Some ConnectionError)
   \<and> fst (query_stream embedder_down ollama_cut engine_with_book ''Who is Alice?'' ''llama3'' None 5)
       = ([''The '', ''cat ''], Some ConnectionError)
   \<and> fst (query_stream embedder_down ollama_garbled engine_with_book ''Who is Alice?'' ''llama3''
             None 5)
       = ([''The ''], Some AttributeError)"
proof -
  have a: "\<not> no_book (current_book engine_with_book)"
    by (simp add: no_book_def engine_with_book_def)
  note t = query_stream_relays_then_raises [OF a context_with_book]
  have d: "stream_api ollama_down m ms = StreamFailed" for m ms
    by (simp add: ollama_down_def)
  have c: "stream_api ollama_cut m ms = Streaming [Json ''The '', Blank, Json ''cat ''] Interrupted"
    for m ms by (simp add: ollama_cut_def)
  have g: "stream_api ollama_garbled m ms
             = Streaming ([Json ''The ''] @ NotObject # [Json ''cat '']) Completed"
    for m ms by (simp add: ollama_garbled_def)
  have 1: "fst (query_stream embedder_down ollama_down engine_with_book ''Who is Alice?'' ''llama3''
                  None 5) = ([], Some ConnectionError)"
    using t [of ollama_down "''llama3''" None, THEN conjunct1] d by simp
  have 2: "fst (query_stream embedder_down ollama_cut engine_with_book ''Who is Alice?'' ''llama3''
                  None 5) = ([''The '', ''cat ''], Some ConnectionError)"
    using t [of ollama_cut "''llama3''" None "[Json ''The '', Blank, Json ''cat '']",
              THEN conjunct2, THEN conjunct1] c
    by simp
  have 3: "fst (query_stream embedder_down ollama_garbled engine_with_book ''Who is Alice?''
                  ''llama3'' None 5) = ([''The ''], Some AttributeError)"
    using t [of ollama_garbled "''llama3''" None _ "[Json ''The '']" NotObject "[Json ''cat '']"
                Completed, THEN conjunct2, THEN conjunct2] g
    by simp
  from a context_with_book 1 2 3 show ?thesis by blast
qed

text \<open>
  C3, as the claim states it, fails: with the backend unreachable, \<open>query_stream\<close> yields
  no fragment at all and ends with \<open>ConnectionError\<close>.
\<close>

theorem query_stream_raises_counterexample:
  "fst (query_stream embedder_down ollama_down engine_with_book ''Who is Alice?'' ''llama3'' None 5)
     = ([], Some ConnectionError)"
  using context_with_book
  by (cases "build_context embedder_down engine_with_book ''Who is Alice?'' 5")
     (simp add: query_stream_def no_book_def engine_with_book_def ollama_down_def chat_stream_def)

section \<open>Normalized text\<close>

lemma isspace_SP [simp]: "isspace SP"
  by (simp add: isspace_def SP_def code_point_def)

lemma isspace_CR [simp]: "isspace CR" and CR_neq_SP [simp]: "CR \<noteq> SP"
  by (simp_all add: isspace_def SP_def CR_def code_point_def)

lemma kept_SP [simp]: "kept_char SP"
  by (simp add: kept_char_def)

lemma collapsed_Cons:
  "collapsed (c # cs) =
     ((isspace c = (c = SP)) \<and> (cs = [] \<or> ((c \<noteq> SP \<or> hd cs \<noteq> SP) \<and> collapsed cs)))"
  by (cases cs) auto

lemma collapse_ws_Nil_iff [simp]: "collapse_ws s = [] \<longleftrightarrow> s = []"
  by (cases s) auto

lemma hd_collapse_ws: "s \<noteq> [] \<Longrightarrow> hd (collapse_ws s) = (if isspace (hd s) then SP else hd s)"
  by (cases s) auto

lemma collapsed_collapse_ws: "collapsed (collapse_ws s)"
proof (induction s rule: collapse_ws.induct)
  case 1
  show ?case by simp
next
  case (2 c cs)
  show ?case
  proof (cases "isspace c")
    case True
    have "dropWhile isspace cs \<noteq> [] \<Longrightarrow> hd (collapse_ws (dropWhile isspace cs)) \<noteq> SP"
      using hd_dropWhile [of isspace cs] by (auto simp: hd_collapse_ws)
    with True 2 show ?thesis by (auto simp: collapsed_Cons)
  next
    case False
    then have "c \<noteq> SP" by auto
    with False 2 show ?thesis by (auto simp: collapsed_Cons)
  qed
qed

lemma collapse_ws_collapsed: "collapsed s \<Longrightarrow> collapse_ws s = s"
proof (induction s rule: collapse_ws.induct)
  case 1
  show ?case by simp
next
  case (2 c cs)
  show ?case
  proof (cases "isspace c")
    case True
    with "2.prems" have c: "c = SP" by (simp add: collapsed_Cons)
    have d: "dropWhile isspace cs = cs"
    proof (cases cs)
      case Nil
      then show ?thesis by simp
    next
      case (Cons d ds)
      with "2.prems" c have "d \<noteq> SP" "isspace d = (d = SP)"
        by (auto simp: collapsed_Cons)
      with Cons show ?thesis by simp
    qed
    have "collapsed cs" using "2.prems" by (auto simp: collapsed_Cons)
    with True c d "2.IH"(1) show ?thesis by simp
  next
    case False
    have "collapsed cs" using "2.prems" by (auto simp: collapsed_Cons)
    with False "2.IH"(2) show ?thesis by simp
  qed
qed

lemma collapsed_append: "collapsed (a @ b) \<Longrightarrow> collapsed a \<and> collapsed b"
proof (induction a)
  case Nil
  then show ?case by simp
next
  case (Cons c a)
  then show ?case by (cases a; cases b) (auto simp: collapsed_Cons)
qed

lemma strip_decomp: "\<exists>a b. s = a @ strip s @ b"
proof -
  have "s = takeWhile isspace s @ dropWhile isspace s" by simp
  moreover have "dropWhile isspace s
        = strip s @ rev (takeWhile isspace (rev (dropWhile isspace s)))"
    unfolding strip_def
    by (metis rev_append rev_rev_ident takeWhile_dropWhile_id)
  ultimately show ?thesis by metis
qed

lemma collapsed_strip: "collapsed s \<Longrightarrow> collapsed (strip s)"
  using strip_decomp [of s] collapsed_append by metis

lemma set_strip: "set (strip s) \<subseteq> set s"
  using strip_decomp [of s] by (metis Un_iff set_append subsetI)

lemma strip_strip: "strip (strip s) = strip s"
proof -
  define u where "u = dropWhile isspace s"
  define w where "w = rev (dropWhile isspace (rev u))"
  have sw: "strip s = w" by (simp add: strip_def u_def w_def)
  have uw: "u = w @ rev (takeWhile isspace (rev u))"
    unfolding w_def by (metis rev_append rev_rev_ident takeWhile_dropWhile_id)
  have "dropWhile isspace w = w"
  proof (cases w)
    case Nil
    then show ?thesis by simp
  next
    case (Cons x xs)
    with uw have "u = x # (xs @ rev (takeWhile isspace (rev u)))" by simp
    then have "u \<noteq> []" "hd u = x" by (metis list.distinct(1), metis list.sel(1))
    with hd_dropWhile [of isspace s] have "\<not> isspace x" by (auto simp: u_def)
    with Cons show ?thesis by simp
  qed
  moreover have "dropWhile isspace (rev w) = rev w"
    by (simp add: w_def dropWhile_idem)
  ultimately have "strip w = w" by (simp add: strip_def)
  with sw show ?thesis by simp
qed

lemma collapsed_no_CR: "collapsed s \<Longrightarrow> CR \<notin> set s"
  by (induction s rule: collapsed.induct) auto

lemma replace_crlf_id: "CR \<notin> set s \<Longrightarrow> replace_crlf s = s"
  by (induction s rule: replace_crlf.induct) auto

lemma replace_cr_id: "CR \<notin> set s \<Longrightarrow> replace_cr s = s"
  by (induction s) (auto simp: replace_cr_def)

lemma preprocess_text_alt: "preprocess_text s = strip (remove_special (collapse_ws s))"
proof -
  have "CR \<notin> set (remove_special (collapse_ws s))"
    using collapsed_no_CR [OF collapsed_collapse_ws [of s]] by (simp add: remove_special_def)
  then show ?thesis by (simp add: preprocess_text_def replace_crlf_id replace_cr_id)
qed

lemma set_collapse_ws: "set (collapse_ws s) \<subseteq> insert SP (set s)"
proof (induction s rule: collapse_ws.induct)
  case 1
  show ?case by simp
next
  case (2 c cs)
  have "set (dropWhile isspace cs) \<subseteq> set cs" by (rule set_dropWhileD [THEN subsetI])
  with 2 show ?case by (cases "isspace c") auto
qed

lemma kept_preprocess_text: "c \<in> set (preprocess_text s) \<Longrightarrow> kept_char c"
  using set_strip [of "remove_special (collapse_ws s)"]
  by (auto simp: preprocess_text_alt remove_special_def)

lemma preprocess_text_kept:
  assumes "\<forall>c\<in>set s. kept_char c"
  shows "preprocess_text s = strip (collapse_ws s)" and "collapsed (preprocess_text s)"
proof -
  have "\<forall>c\<in>set (collapse_ws s). kept_char c"
    using assms set_collapse_ws [of s] by auto
  then have "remove_special (collapse_ws s) = collapse_ws s"
    by (simp add: remove_special_def)
  then show "preprocess_text s = strip (collapse_ws s)"
    by (simp add: preprocess_text_alt)
  then show "collapsed (preprocess_text s)"
    by (simp add: collapsed_strip collapsed_collapse_ws)
qed

lemma preprocess_text_fixed:
  assumes "\<forall>c\<in>set s. kept_char c"
  shows "preprocess_text (preprocess_text s) = preprocess_text s"
proof -
  let ?t = "preprocess_text s"
  have k: "\<forall>c\<in>set ?t. kept_char c" by (simp add: kept_preprocess_text)
  have "preprocess_text ?t = strip (collapse_ws ?t)"
    by (rule preprocess_text_kept(1) [OF k])
  also have "\<dots> = strip ?t"
    by (simp add: collapse_ws_collapsed preprocess_text_kept(2) [OF assms])
  also have "\<dots> = ?t"
    by (simp add: preprocess_text_kept(1) [OF assms] strip_strip)
  finally show ?thesis .
qed

text \<open>
  C10, as the code has it. \<open>preprocess_text\<close> collapses whitespace before it removes
  characters, so a removed character that stood between two spaces leaves a double space
  behind. On text that holds only characters it keeps, \<open>preprocess_text\<close> is idempotent;
  on any text, its result no longer changes from the second application on.
\<close>

theorem preprocess_text_idempotent_on_kept:
  "((\<forall>c\<in>set s. kept_char c) \<longrightarrow> preprocess_text (preprocess_text s) = preprocess_text s)
   \<and> preprocess_text (preprocess_text (preprocess_text s)) = preprocess_text (preprocess_text s)"
proof
  show "(\<forall>c\<in>set s. kept_char c) \<longrightarrow> preprocess_text (preprocess_text s) = preprocess_text s"
    by (simp add: preprocess_text_fixed)
  have "\<forall>c\<in>set (preprocess_text s). kept_char c"
    by (simp add: kept_preprocess_text)
  then show "preprocess_text (preprocess_text (preprocess_text s))
               = preprocess_text (preprocess_text s)"
    by (rule preprocess_text_fixed)
qed

theorem preprocess_text_idempotent_on_kept_witness:
  "list_all kept_char ''Alice  met Bob.''
   \<and> preprocess_text (preprocess_text ''Alice  met Bob.'') = preprocess_text ''Alice  met Bob.''"
proof -
  have h: "list_all kept_char ''Alice  met Bob.''"
    by code_simp
  then have "\<forall>c\<in>set ''Alice  met Bob.''. kept_char c"
    by (simp only: list_all_iff)
  with h preprocess_text_idempotent_on_kept [of "''Alice  met Bob.''"] show ?thesis
    by blast
qed

text \<open>
  C10, as the claim states it, fails: from \<open>a # b\<close> the first application gives \<open>a\<close>, two
  spaces, \<open>b\<close>, and the second application gives \<open>a b\<close>.
\<close>

theorem preprocess_text_not_idempotent_counterexample:
  "preprocess_text ''a # b'' = ''a  b''
   \<and> preprocess_text (preprocess_text ''a # b'') = ''a b''"
  by code_simp

section \<open>Chunking\<close>

subsection \<open>A run that never ends\<close>

lemma preprocess_text_example: "preprocess_text ''a. bcdefgh'' = ''a. bcdefgh''"
  by code_simp

lemma window_end_example: "window_end ''a. bcdefgh'' 0 4 = 3"
  by code_simp

lemma strip_window_example: "strip (py_slice ''a. bcdefgh'' 0 3) = ''a.''"
  by code_simp

text \<open>
  With a chunk size of 4 and an overlap of 3 the first window of \<open>a. bcdefgh\<close> ends
  after the sentence break at 3, and the next window starts at 0 again.
\<close>

lemma loop_never_returns:
  assumes "chunk_loop ''a. bcdefgh'' 4 3 0 chunks = Some result"
  shows False
proof -
  have "\<not> (''a. bcdefgh'' = ''a. bcdefgh'' \<and> (4::int) = 4 \<and> (3::int) = 3 \<and> (0::int) = 0)"
  proof (rule chunk_loop.raw_induct
      [where P = "\<lambda>t cs co st ch res. \<not> (t = ''a. bcdefgh'' \<and> cs = 4 \<and> co = 3 \<and> st = 0)",
        OF _ assms])
    fix loop t cs co st ch res
    assume IH: "\<And>t cs co st ch res. loop t cs co st ch = Some res \<Longrightarrow>
                  \<not> (t = ''a. bcdefgh'' \<and> cs = 4 \<and> co = 3 \<and> st = 0)"
      and body: "(if st < int (length t)
           then if int (length t) \<le> window_end t st cs - co
                then Some (append_chunk ch (strip (py_slice t st (window_end t st cs))))
                else loop t cs co (window_end t st cs - co)
                       (append_chunk ch (strip (py_slice t st (window_end t st cs))))
           else Some ch) = Some res"
    show "\<not> (t = ''a. bcdefgh'' \<and> cs = 4 \<and> co = 3 \<and> st = 0)"
    proof
      assume a: "t = ''a. bcdefgh'' \<and> cs = 4 \<and> co = 3 \<and> st = 0"
      with body have "loop ''a. bcdefgh'' 4 3 0 (append_chunk ch ''a.'') = Some res"
        by (simp add: window_end_example strip_window_example)
      with IH show False by blast
    qed
  qed
  then show False by simp
qed

text \<open>
  C2 at the input \<open>chunk_text("a. bcdefgh", 4, 3)\<close>: the loop never ends, so
  \<open>chunk_text\<close> does not return.
\<close>

theorem chunk_text_never_returns:
  "chunk_text ''a. bcdefgh'' 4 3 = None"
proof (cases "chunk_text ''a. bcdefgh'' 4 3")
  case None
  then show ?thesis .
next
  case (Some result)
  then have "chunk_loop ''a. bcdefgh'' 4 3 0 [] = Some result"
    by (simp add: chunk_text_def preprocess_text_example)
  with loop_never_returns show ?thesis by blast
qed

subsection \<open>Windows and chunks\<close>

lemma rfind_range: "rfind s p = - 1 \<or> 0 \<le> rfind s p"
  by (simp add: rfind_def split: list.splits)

lemma break_step_bound:
  assumes "\<And>b. best = Some b \<Longrightarrow> lo < b" and "p \<noteq> []"
    and "break_step st lo best p = Some b"
  shows "lo < b"
proof (cases "rfind st p = - 1")
  case True
  with assms show ?thesis by (simp add: break_step_def)
next
  case False
  with rfind_range [of st p] have r: "0 \<le> rfind st p" by simp
  from assms(2) obtain x xs where l: "p = x # xs" by (cases p) auto
  from False assms(1,3) r show ?thesis
    by (cases best) (auto simp: break_step_def Let_def l split: if_splits)
qed

lemma foldl_break_step_bound:
  assumes "\<forall>p\<in>set ps. p \<noteq> []" and "\<And>b. best = Some b \<Longrightarrow> lo < b"
    and "foldl (break_step st lo) best ps = Some b"
  shows "lo < b"
  using assms
proof (induction ps arbitrary: best)
  case Nil
  then show ?case by simp
next
  case (Cons p ps)
  have "\<And>c. break_step st lo best p = Some c \<Longrightarrow> lo < c"
    using break_step_bound [of best lo p st] Cons.prems(1,2) by simp
  with Cons.IH [of "break_step st lo best p"] Cons.prems show ?case by simp
qed

lemma find_break_bound:
  assumes "find_break tx start chunk_size = Some b"
  shows "max (start + chunk_size - 100) start < b"
proof -
  have "\<forall>p\<in>set break_patterns. p \<noteq> []" by (simp add: break_patterns_def)
  from foldl_break_step_bound [OF this _ assms [unfolded find_break_def Let_def]]
  show ?thesis by simp
qed

lemma window_end_cases:
  "window_end tx start chunk_size = start + chunk_size
   \<or> max (start + chunk_size - 100) start < window_end tx start chunk_size"
  using find_break_bound [of tx start chunk_size]
  by (auto simp: window_end_def Let_def split: option.splits)

lemma window_end_progress:
  assumes "0 \<le> chunk_overlap" "chunk_overlap < chunk_size"
    "chunk_overlap = 0 \<or> chunk_overlap + 100 \<le> chunk_size"
  shows "start < window_end tx start chunk_size - chunk_overlap"
  using window_end_cases [of tx start chunk_size] assms by auto

lemma py_slice_nonneg:
  assumes "0 \<le> a" "a \<le> b"
  shows "py_slice s a b = take (nat b - nat a) (drop (nat a) s)"
proof (cases "nat a \<le> length s")
  case True
  then show ?thesis
    using assms by (auto simp: py_slice_def slice_bound_def Let_def min_def)
next
  case False
  then show ?thesis
    using assms by (simp add: py_slice_def slice_bound_def Let_def)
qed


lemma trimmed_Nil: "trimmed [] = []"
  by (simp add: trimmed_def)

lemma trimmed_Cons: "chunks @ trimmed (w # ws) = append_chunk chunks (strip w) @ trimmed ws"
  by (simp add: trimmed_def append_chunk_def)

lemma preprocess_text_Nil: "preprocess_text [] = []"
  by (simp add: preprocess_text_def remove_special_def replace_cr_def strip_def)

lemma concat_windows_from:
  assumes "advancing ov s ends" and "ends \<noteq> []" and "length tx \<le> last ends"
  shows "concat (map (drop ov) (windows_from tx ov s ends)) = drop (s + ov) tx"
  using assms
proof (induction ends arbitrary: s)
  case Nil
  then show ?case by simp
next
  case (Cons e es)
  define xs where "xs = drop (s + ov) tx"
  have h: "drop ov (take (e - s) (drop s tx)) = take (e - s - ov) xs"
    by (simp add: xs_def drop_take add.commute)
  show ?case
  proof (cases "es = []")
    case True
    with Cons.prems have "length xs \<le> e - s - ov" by (simp add: xs_def)
    with True h show ?thesis by (simp add: xs_def)
  next
    case False
    with Cons.prems have "advancing ov (e - ov) es" "length tx \<le> last es" by simp_all
    from Cons.IH [OF this(1) False this(2)] Cons.prems(1)
    have "concat (map (drop ov) (windows_from tx ov (e - ov) es)) = drop e tx" by simp
    moreover from Cons.prems(1) have "drop e tx = drop (e - s - ov) xs"
      by (simp add: xs_def)
    ultimately have "concat (map (drop ov) (windows_from tx ov s (e # es))) = xs"
      by (simp add: h)
    then show ?thesis by (simp add: xs_def)
  qed
qed

lemma reassemble_windows_from:
  assumes "advancing ov s ends" and "ends \<noteq> []" and "length tx \<le> last ends"
  shows "reassemble ov (windows_from tx ov s ends) = drop s tx"
proof (cases ends)
  case Nil
  with assms(2) show ?thesis by simp
next
  case (Cons e es)
  define xs where "xs = drop s tx"
  show ?thesis
  proof (cases "es = []")
    case True
    with Cons assms(3) have "length xs \<le> e - s" by (simp add: xs_def)
    with True Cons show ?thesis by (simp add: reassemble_def xs_def)
  next
    case False
    with Cons assms have "advancing ov (e - ov) es" "length tx \<le> last es" by simp_all
    from concat_windows_from [OF this(1) False this(2)] Cons assms(1)
    have "concat (map (drop ov) (windows_from tx ov (e - ov) es)) = drop e tx" by simp
    moreover from Cons assms(1) have "drop e tx = drop (e - s) xs"
      by (simp add: xs_def)
    ultimately have "concat (map (drop ov) (windows_from tx ov (e - ov) es)) = drop (e - s) xs"
      by simp
    then have "reassemble ov (windows_from tx ov s (e # es)) = xs"
      by (simp add: reassemble_def xs_def [symmetric])
    with Cons show ?thesis by (simp add: xs_def)
  qed
qed

lemma chunk_loop_ends:
  assumes "0 \<le> chunk_overlap" "chunk_overlap < chunk_size"
    "chunk_overlap = 0 \<or> chunk_overlap + 100 \<le> chunk_size" "0 \<le> start"
  shows "\<exists>ends.
           advancing (nat chunk_overlap) (nat start) ends
         \<and> (if start < int (length tx) then ends \<noteq> [] \<and> length tx \<le> last ends else ends = [])
         \<and> chunk_loop tx chunk_size chunk_overlap start chunks
             = Some (chunks @ trimmed (windows_from tx (nat chunk_overlap) (nat start) ends))"
  using assms(4)
proof (induction "nat (int (length tx) - start)" arbitrary: start chunks rule: less_induct)
  case less
  show ?case
  proof (cases "start < int (length tx)")
    case False
    then have "chunk_loop tx chunk_size chunk_overlap start chunks
                 = Some (chunks @ trimmed (windows_from tx (nat chunk_overlap) (nat start) []))"
      by (subst chunk_loop.simps) (simp add: trimmed_Nil)
    with False show ?thesis by (intro exI [of _ "[]"]) simp
  next
    case True
    define e where "e = window_end tx start chunk_size"
    define w where "w = py_slice tx start e"
    have p: "start < e - chunk_overlap"
      unfolding e_def by (rule window_end_progress [OF assms(1-3)])
    with assms(1) less.prems have se: "start \<le> e" by simp
    have w: "w = take (nat e - nat start) (drop (nat start) tx)"
      unfolding w_def by (rule py_slice_nonneg [OF less.prems se])
    have adv: "nat start + nat chunk_overlap < nat e"
      using p assms(1) less.prems by simp
    show ?thesis
    proof (cases "int (length tx) \<le> e - chunk_overlap")
      case True
      with \<open>start < int (length tx)\<close>
      have "chunk_loop tx chunk_size chunk_overlap start chunks
              = Some (append_chunk chunks (strip w))"
        by (subst chunk_loop.simps) (simp add: e_def w_def)
      then have "chunk_loop tx chunk_size chunk_overlap start chunks
              = Some (chunks @ trimmed (windows_from tx (nat chunk_overlap) (nat start) [nat e]))"
        using trimmed_Cons [of chunks w "[]"] by (simp add: trimmed_Nil w)
      moreover from True assms(1) have "length tx \<le> nat e" by simp
      ultimately show ?thesis
        using adv \<open>start < int (length tx)\<close> by (intro exI [of _ "[nat e]"]) simp
    next
      case False
      let ?start' = "e - chunk_overlap"
      let ?chunks' = "append_chunk chunks (strip w)"
      from False \<open>start < int (length tx)\<close>
      have u: "chunk_loop tx chunk_size chunk_overlap start chunks
              = chunk_loop tx chunk_size chunk_overlap ?start' ?chunks'"
        by (subst chunk_loop.simps) (simp add: e_def w_def)
      have m: "nat (int (length tx) - ?start') < nat (int (length tx) - start)"
        using p False by simp
      have s0: "0 \<le> ?start'" using p less.prems by simp
      have n: "nat ?start' = nat e - nat chunk_overlap"
        using s0 assms(1) by (simp add: nat_diff_distrib)
      from less.hyps [OF m s0, of ?chunks'] False obtain es where
        a: "advancing (nat chunk_overlap) (nat ?start') es"
        and c: "es \<noteq> []" "length tx \<le> last es"
        and r: "chunk_loop tx chunk_size chunk_overlap ?start' ?chunks'
                  = Some (?chunks' @ trimmed (windows_from tx (nat chunk_overlap) (nat ?start') es))"
        by auto
      from u r have "chunk_loop tx chunk_size chunk_overlap start chunks
              = Some (chunks @ trimmed (windows_from tx (nat chunk_overlap) (nat start) (nat e # es)))"
        using trimmed_Cons [of chunks w] by (simp add: w n)
      with a c adv \<open>start < int (length tx)\<close> show ?thesis
        by (intro exI [of _ "nat e # es"]) (simp add: n)
    qed
  qed
qed

text \<open>
  C8, as the code has it. For an overlap that is not negative, smaller than the chunk
  size, and either 0 or at least 100 below the chunk size, \<open>chunk_text\<close> returns. Its
  chunks are the trimmed, non-empty forms of slices of the normalized text: the first
  slice starts at 0, every later slice starts exactly \<open>chunk_overlap\<close> characters before
  the end of the slice before it and ends beyond that end, and the last slice reaches the
  end of the text. The slices, re-concatenated with the overlap regions removed, are the
  normalized text.
\<close>

theorem chunk_text_windows:
  assumes "0 \<le> chunk_overlap" "chunk_overlap < chunk_size"
    "chunk_overlap = 0 \<or> chunk_overlap + 100 \<le> chunk_size"
  shows "\<exists>ends.
           advancing (nat chunk_overlap) 0 ends
         \<and> reaches_end (preprocess_text text) ends
         \<and> chunk_text text chunk_size chunk_overlap
             = Some (trimmed (windows_from (preprocess_text text) (nat chunk_overlap) 0 ends))
         \<and> reassemble (nat chunk_overlap)
              (windows_from (preprocess_text text) (nat chunk_overlap) 0 ends)
             = preprocess_text text"
proof -
  define tx where "tx = preprocess_text text"
  from chunk_loop_ends [OF assms, of 0 tx "[]"] obtain ends where
    a: "advancing (nat chunk_overlap) 0 ends"
    and c: "if 0 < int (length tx) then ends \<noteq> [] \<and> length tx \<le> last ends else ends = []"
    and r: "chunk_loop tx chunk_size chunk_overlap 0 []
              = Some (trimmed (windows_from tx (nat chunk_overlap) 0 ends))"
    by auto
  from c have e: "reaches_end tx ends"
    by (auto simp: reaches_end_def split: if_splits)
  have t: "chunk_text text chunk_size chunk_overlap
             = Some (trimmed (windows_from tx (nat chunk_overlap) 0 ends))"
  proof (cases "text = []")
    case True
    then have "tx = []" by (simp add: tx_def preprocess_text_Nil)
    with c True show ?thesis by (simp add: chunk_text_def trimmed_Nil)
  next
    case False
    with r show ?thesis by (simp add: chunk_text_def tx_def)
  qed
  have "reassemble (nat chunk_overlap) (windows_from tx (nat chunk_overlap) 0 ends) = tx"
  proof (cases "ends = []")
    case True
    with c show ?thesis by (simp add: reassemble_def split: if_splits)
  next
    case False
    with c have "length tx \<le> last ends" by (simp split: if_splits)
    from reassemble_windows_from [OF a False this] show ?thesis by simp
  qed
  with a e t show ?thesis unfolding tx_def by blast
qed

text \<open>
  The theorem at the story with a chunk size of 110 and an overlap of 10. The two slices
  end at 103 and 203; the second starts at 93, inside the first.
\<close>

theorem chunk_text_windows_witness:
  "(0::int) \<le> 10 \<and> (10::int) < 110 \<and> (10::int) + 100 \<le> 110
   \<and> (\<exists>ends.
          advancing (nat 10) 0 ends
        \<and> reaches_end (preprocess_text story) ends
        \<and> chunk_text story 110 10
            = Some (trimmed (windows_from (preprocess_text story) (nat 10) 0 ends))
        \<and> reassemble (nat 10) (windows_from (preprocess_text story) (nat 10) 0 ends)
            = preprocess_text story)
   \<and> chunk_text story 110 10
       = Some (trimmed (windows_from (preprocess_text story) 10 0 [103, 203]))
   \<and> trimmed (windows_from (preprocess_text story) 10 0 [103, 203])
       = [''Alice met Bob. They went to the market. The market was closed. Alice met Bob. They went to the market.'',
          ''e market. The market was closed.'']"
proof -
  have 1: "\<exists>ends.
          advancing (nat 10) 0 ends
        \<and> reaches_end (preprocess_text story) ends
        \<and> chunk_text story 110 10
            = Some (trimmed (windows_from (preprocess_text story) (nat 10) 0 ends))
        \<and> reassemble (nat 10) (windows_from (preprocess_text story) (nat 10) 0 ends)
            = preprocess_text story"
    by (rule chunk_text_windows) simp_all
  have 2: "chunk_text story 110 10
       = Some (trimmed (windows_from (preprocess_text story) 10 0 [103, 203]))"
    by code_simp
  have 3: "trimmed (windows_from (preprocess_text story) 10 0 [103, 203])
       = [''Alice met Bob. They went to the market. The market was closed. Alice met Bob. They went to the market.'',
          ''e market. The market was closed.'']"
    by code_simp
  from 1 2 3 show ?thesis by simp
qed

text \<open>
  C8, as the claim states it, fails: with a chunk size of 5 and no overlap, the chunks of
  \<open>ab. cdefgh\<close> are \<open>ab.\<close>, \<open>cdefg\<close> and \<open>h\<close>. The space after the sentence break was
  trimmed away, so neither the concatenation of the chunks nor the chunks joined by spaces
  has the normalized form of the input.
\<close>

theorem chunk_text_reassemble_counterexample:
  "chunk_text ''ab. cdefgh'' 5 0 = Some [''ab.'', ''cdefg'', ''h'']
   \<and> preprocess_text ''ab. cdefgh'' = ''ab. cdefgh''
   \<and> preprocess_text (reassemble 0 [''ab.'', ''cdefg'', ''h'']) = ''ab.cdefgh''
   \<and> preprocess_text (join '' '' [''ab.'', ''cdefg'', ''h'']) = ''ab. cdefg h''"
  by code_simp

end
